theory Spec2Isabelle
  imports Main
begin

section \<open>FZ-Manager: the client of \<^verbatim>\<open>factorio_zone_api.py\<close>\<close>

text \<open>
  The development embeds class \<^verbatim>\<open>FZClient\<close>: the receive loop of \<^verbatim>\<open>connect\<close> with its
  sequence check and its dispatch on the event type, \<^verbatim>\<open>login\<close>, and the operations on
  mods and saves that touch the two sync flags. Python values that come from JSON are
  values of one datatype; \<^verbatim>\<open>None\<close> is \<open>JNull\<close>. JSON numbers with a fraction or an
  exponent (Python floats) are outside the model.
\<close>

subsection \<open>Values\<close>

datatype json =
    JNull
  | JBool bool
  | JInt int
  | JStr string
  | JList "json list"
  | JObj "(string \<times> json) list"

text \<open>A decoded object is an association list; \<open>map_of\<close> reads it as the dictionary.\<close>

type_synonym data = "(string \<times> json) list"

text \<open>\<^verbatim>\<open>data.get(key)\<close>: the value, or \<^verbatim>\<open>None\<close> when the key is absent.\<close>

definition dict_get :: "data \<Rightarrow> string \<Rightarrow> json" where
  "dict_get d k = (case map_of d k of None \<Rightarrow> JNull | Some v \<Rightarrow> v)"

text \<open>Python's truth value of an object, as \<^verbatim>\<open>if current_num:\<close> takes it.\<close>

fun truthy :: "json \<Rightarrow> bool" where
  "truthy JNull = False"
| "truthy (JBool b) = b"
| "truthy (JInt n) = (n \<noteq> 0)"
| "truthy (JStr s) = (s \<noteq> [])"
| "truthy (JList xs) = (xs \<noteq> [])"
| "truthy (JObj kvs) = (kvs \<noteq> [])"

text \<open>
  The number an object stands for in a comparison with an integer: \<^verbatim>\<open>bool\<close> is a
  subclass of \<^verbatim>\<open>int\<close>; comparing anything else with an integer raises \<^verbatim>\<open>TypeError\<close>.
\<close>

fun as_int :: "json \<Rightarrow> int option" where
  "as_int (JInt n) = Some n"
| "as_int (JBool b) = Some (if b then 1 else 0)"
| "as_int _ = None"

text \<open>
  The key under which a dictionary files an object: \<^verbatim>\<open>True\<close> and \<^verbatim>\<open>1\<close> are one key,
  lists and dictionaries are unhashable.
\<close>

fun dict_key :: "json \<Rightarrow> json option" where
  "dict_key (JBool b) = Some (JInt (if b then 1 else 0))"
| "dict_key (JList xs) = None"
| "dict_key (JObj kvs) = None"
| "dict_key v = Some v"

datatype error =
    JSONDecodeError
  | AttributeError
  | KeyError string
  | TypeError
  | ConnectionClosed
  | RequestException
  | OSError
  | Exception string

datatype ServerStatus = OFFLINE | STARTING | STOPPING | RUNNING

subsection \<open>The REST surface\<close>

text \<open>
  A response of \<^verbatim>\<open>requests\<close>: the status code, \<^verbatim>\<open>resp.text\<close>, what \<^verbatim>\<open>resp.json()\<close>
  returns (\<open>None\<close> when it raises) and the chunks \<^verbatim>\<open>resp.iter_content\<close> yields.
\<close>

record response =
  status_code :: int
  resp_text :: string
  resp_json :: "json option"
  iter_content :: "string list"

text \<open>\<^verbatim>\<open>resp.ok\<close> is false exactly when \<^verbatim>\<open>raise_for_status\<close> raises: a status from 400 to 599.\<close>

definition ok :: "response \<Rightarrow> bool" where
  "ok r = (\<not> (400 \<le> status_code r \<and> status_code r < 600))"

datatype part =
    Field json
  | Text_of_int int
  | File_part string string string

record request =
  url :: string
  form :: "(string \<times> part) list"

text \<open>A request as it leaves, with the two sync flags as they are at that moment.\<close>

record sent =
  req :: request
  mods_sync_then :: bool
  saves_sync_then :: bool

datatype call =
    Log_call nat json
  | Message_call nat data
  | Progress_call nat

subsection \<open>The client and its surroundings\<close>

record fz_client =
  user_token :: json
  visit_secret :: json
  regions :: json
  versions :: json
  slots :: "json \<rightharpoonup> json"
  saves :: json
  mods :: json
  running :: bool
  launch_id :: json
  region :: json
  server_address :: json
  server_status :: ServerStatus
  logs_listeners :: "nat list"
  message_listeners :: "nat list"
  mods_sync :: bool
  saves_sync :: bool
  last_handled_message_num :: int

text \<open>
  The world is the client together with what it talks to: the responses the service
  will give to the next calls of \<^verbatim>\<open>requests.post\<close> (\<open>None\<close>: the call raises), the requests
  issued so far, the files that can be opened for reading with their contents, the paths
  that cannot be opened for writing, and the calls made to the caller's callbacks
  (listeners and progress callbacks are the caller's code: a call is recorded and returns).
\<close>

record world = fz_client +
  responses :: "response option list"
  posted :: "sent list"
  files :: "string \<rightharpoonup> string"
  write_denied :: "string \<Rightarrow> bool"
  calls :: "call list"

text \<open>\<^verbatim>\<open>FZClient.__init__\<close>\<close>

definition FZClient :: "json \<Rightarrow> fz_client" where
  "FZClient token =
     \<lparr>user_token = token, visit_secret = JNull, regions = JObj [], versions = JObj [],
      slots = Map.empty, saves = JObj [], mods = JList [], running = False,
      launch_id = JNull, region = JNull, server_address = JNull,
      server_status = OFFLINE, logs_listeners = [], message_listeners = [],
      mods_sync = False, saves_sync = False, last_handled_message_num = - 1\<rparr>"

definition endpoint :: string where
  "endpoint = ''https://factorio.zone''"

text \<open>\<^verbatim>\<open>requests.post\<close>: the request is recorded, the next response is consumed.\<close>

definition post :: "request \<Rightarrow> world \<Rightarrow> response option \<times> world" where
  "post rq w =
     (let w1 = w\<lparr>posted := posted w @
                  [\<lparr>req = rq, mods_sync_then = mods_sync w, saves_sync_then = saves_sync w\<rparr>]\<rparr>
      in case responses w of
           [] \<Rightarrow> (None, w1)
         | r # rs \<Rightarrow> (r, w1\<lparr>responses := rs\<rparr>))"

subsection \<open>Listeners\<close>

definition on_new_log :: "json \<Rightarrow> world \<Rightarrow> world" where
  "on_new_log log w = w\<lparr>calls := calls w @ map (\<lambda>l. Log_call l log) (logs_listeners w)\<rparr>"

definition on_new_message :: "data \<Rightarrow> world \<Rightarrow> world" where
  "on_new_message message_data w =
     w\<lparr>calls := calls w @ map (\<lambda>l. Message_call l message_data) (message_listeners w)\<rparr>"

subsection \<open>Login\<close>

definition login :: "world \<Rightarrow> (error + unit) \<times> world" where
  "login w =
     (case post \<lparr>url = endpoint @ ''/api/user/login'',
                 form = [(''userToken'', Field (user_token w)),
                         (''visitSecret'', Field (visit_secret w)),
                         (''reconnected'', Field (JBool False))]\<rparr> w of
        (None, w1) \<Rightarrow> (Inl RequestException, w1)
      | (Some resp, w1) \<Rightarrow>
          if ok resp then
            (case resp_json resp of
               None \<Rightarrow> (Inl JSONDecodeError, w1)
             | Some (JObj body) \<Rightarrow>
                 (case map_of body ''userToken'' of
                    None \<Rightarrow> (Inl (KeyError ''userToken''), w1)
                  | Some t \<Rightarrow> (Inr (), w1\<lparr>user_token := t\<rparr>))
             | Some _ \<Rightarrow> (Inl TypeError, w1))
          else (Inl (Exception (''Error logging in: '' @ resp_text resp)), w1))"

subsection \<open>The pattern of the \<^verbatim>\<open>info\<close> line\<close>

text \<open>
  \<^verbatim>\<open>re.findall('selecting connection (\d+\.\d+\.\d+\.\d+:\d+)', line)\<close>: only the first
  match is used. A run of digits is never followed by a digit, so the greedy \<^verbatim>\<open>\d+\<close>
  never gives anything back. Characters are bytes: \<^verbatim>\<open>\d\<close> is an ASCII digit here.
\<close>

definition digit :: "char \<Rightarrow> bool" where
  "digit c = (c \<in> set ''0123456789'')"

definition digits :: "string \<Rightarrow> (string \<times> string) option" where
  "digits s = (if takeWhile digit s = [] then None
               else Some (takeWhile digit s, dropWhile digit s))"

definition lit :: "char \<Rightarrow> string \<Rightarrow> string option" where
  "lit c s = (case s of [] \<Rightarrow> None | x # r \<Rightarrow> if x = c then Some r else None)"

definition address_at :: "string \<Rightarrow> string option" where
  "address_at s =
     Option.bind (digits s) (\<lambda>(a, s1).
     Option.bind (lit CHR ''.'' s1) (\<lambda>s2.
     Option.bind (digits s2) (\<lambda>(b, s3).
     Option.bind (lit CHR ''.'' s3) (\<lambda>s4.
     Option.bind (digits s4) (\<lambda>(c, s5).
     Option.bind (lit CHR ''.'' s5) (\<lambda>s6.
     Option.bind (digits s6) (\<lambda>(d, s7).
     Option.bind (lit CHR '':'' s7) (\<lambda>s8.
     Option.bind (digits s8) (\<lambda>(p, s9).
       Some (a @ ''.'' @ b @ ''.'' @ c @ ''.'' @ d @ '':'' @ p))))))))))"

definition match_at :: "string \<Rightarrow> string option" where
  "match_at s =
     (if take (length ''selecting connection '') s = ''selecting connection ''
      then address_at (drop (length ''selecting connection '') s) else None)"

fun first_match :: "string \<Rightarrow> string option" where
  "first_match [] = None"
| "first_match (c # cs) =
     (case match_at (c # cs) of Some g \<Rightarrow> Some g | None \<Rightarrow> first_match cs)"

subsection \<open>The receive loop\<close>

text \<open>
  A frame of the socket is represented by what \<^verbatim>\<open>json.loads\<close> makes of it: \<open>None\<close>
  when decoding raises.
\<close>

type_synonym message = "json option"

definition json_loads :: "message \<Rightarrow> error + json" where
  "json_loads m = (case m of None \<Rightarrow> Inl JSONDecodeError | Some v \<Rightarrow> Inr v)"

text \<open>
  Lines 59 to 63 of \<^verbatim>\<open>connect\<close>: \<open>Inr False\<close> is the \<^verbatim>\<open>continue\<close>, \<open>Inr True\<close> goes on to
  the dispatch. A number stored from \<^verbatim>\<open>True\<close> is stored as 1, which compares the same.
\<close>

definition sequence_check :: "data \<Rightarrow> world \<Rightarrow> (error + bool) \<times> world" where
  "sequence_check d w =
     (let current_num = dict_get d ''num'' in
      if truthy current_num then
        (case as_int current_num of
           None \<Rightarrow> (Inl TypeError, w)
         | Some n \<Rightarrow>
             if n \<le> last_handled_message_num w then (Inr False, w)
             else (Inr True, w\<lparr>last_handled_message_num := n\<rparr>))
      else (Inr True, w))"

text \<open>The branch \<^verbatim>\<open>options\<close> of the dispatch.\<close>

definition dispatch_options :: "data \<Rightarrow> world \<Rightarrow> (error + unit) \<times> world" where
  "dispatch_options d w =
     (case map_of d ''name'' of
        None \<Rightarrow> (Inl (KeyError ''name''), w)
      | Some n \<Rightarrow>
          if n = JStr ''regions'' then
            (case map_of d ''options'' of
               None \<Rightarrow> (Inl (KeyError ''options''), w)
             | Some v \<Rightarrow> (Inr (), w\<lparr>regions := v\<rparr>))
          else if n = JStr ''versions'' then
            (case map_of d ''options'' of
               None \<Rightarrow> (Inl (KeyError ''options''), w)
             | Some v \<Rightarrow> (Inr (), w\<lparr>versions := v\<rparr>))
          else if n = JStr ''saves'' then
            (case map_of d ''options'' of
               None \<Rightarrow> (Inl (KeyError ''options''), w)
             | Some v \<Rightarrow> (Inr (), w\<lparr>saves := v, saves_sync := True\<rparr>))
          else (Inr (), w))"

text \<open>The branch \<^verbatim>\<open>info\<close>: \<^verbatim>\<open>re.findall\<close> raises on a line that is not a string.\<close>

definition dispatch_info :: "data \<Rightarrow> world \<Rightarrow> (error + unit) \<times> world" where
  "dispatch_info d w =
     (case dict_get d ''line'' of
        JStr line \<Rightarrow>
          (case first_match line of
             None \<Rightarrow> (Inr (), w)
           | Some a \<Rightarrow> (Inr (), w\<lparr>server_address := JStr a, server_status := STARTING\<rparr>))
      | _ \<Rightarrow> (Inl TypeError, w))"

text \<open>Lines 65 to 111: the chain on \<^verbatim>\<open>data['type']\<close>, in the source's order.\<close>

definition dispatch :: "data \<Rightarrow> world \<Rightarrow> (error + unit) \<times> world" where
  "dispatch d w =
     (case map_of d ''type'' of
        None \<Rightarrow> (Inl (KeyError ''type''), w)
      | Some t \<Rightarrow>
          if t = JStr ''visit'' then
            (case map_of d ''secret'' of
               None \<Rightarrow> (Inl (KeyError ''secret''), w)
             | Some v \<Rightarrow> login (w\<lparr>visit_secret := v\<rparr>))
          else if t = JStr ''options'' then dispatch_options d w
          else if t = JStr ''mods'' then
            (case map_of d ''mods'' of
               None \<Rightarrow> (Inl (KeyError ''mods''), w)
             | Some v \<Rightarrow> (Inr (), w\<lparr>mods := v, mods_sync := True\<rparr>))
          else if t = JStr ''idle'' then
            (Inr (), w\<lparr>running := False, launch_id := JNull, server_status := OFFLINE,
                        last_handled_message_num := - 1, server_address := JNull\<rparr>)
          else if t = JStr ''starting'' then
            (Inr (), w\<lparr>running := True, launch_id := dict_get d ''launchId'',
                        server_status := STARTING\<rparr>)
          else if t = JStr ''stopping'' then
            (Inr (), w\<lparr>running := True, launch_id := dict_get d ''launchId'',
                        server_status := STOPPING\<rparr>)
          else if t = JStr ''running'' then
            (Inr (), w\<lparr>running := True, launch_id := dict_get d ''launchId'',
                        server_address := dict_get d ''socket'',
                        server_status := RUNNING\<rparr>)
          else if t = JStr ''slot'' then
            (case map_of d ''slot'' of
               None \<Rightarrow> (Inl (KeyError ''slot''), w)
             | Some k \<Rightarrow>
                 (case dict_key k of
                    None \<Rightarrow> (Inl TypeError, w)
                  | Some k' \<Rightarrow> (Inr (), w\<lparr>slots := (slots w)(k' \<mapsto> JObj d)\<rparr>)))
          else if t = JStr ''log'' then (Inr (), on_new_log (dict_get d ''line'') w)
          else if t = JStr ''info'' then dispatch_info d w
          else (Inr (), w))"

datatype outcome = Dropped | Processed

text \<open>Lines 65 to 113: the dispatch, then the message listeners.\<close>

definition process :: "data \<Rightarrow> world \<Rightarrow> (error + outcome) \<times> world" where
  "process d w =
     (case dispatch d w of
        (Inl e, w1) \<Rightarrow> (Inl e, w1)
      | (Inr u, w1) \<Rightarrow> (Inr Processed, on_new_message d w1))"

text \<open>
  One turn of the \<^verbatim>\<open>while True\<close>: decode, check the sequence number, process. Only a
  dictionary has \<^verbatim>\<open>get\<close>.
\<close>

definition loop_body :: "message \<Rightarrow> world \<Rightarrow> (error + outcome) \<times> world" where
  "loop_body m w =
     (case json_loads m of
        Inl e \<Rightarrow> (Inl e, w)
      | Inr (JObj d) \<Rightarrow>
          (case sequence_check d w of
             (Inl e, w1) \<Rightarrow> (Inl e, w1)
           | (Inr False, w1) \<Rightarrow> (Inr Dropped, w1)
           | (Inr True, w1) \<Rightarrow> process d w1)
      | Inr _ \<Rightarrow> (Inl AttributeError, w))"

text \<open>
  \<^verbatim>\<open>connect\<close> once the socket is open, on the frames \<^verbatim>\<open>recv\<close> delivers before the socket
  closes. The loop has no exit but an exception: the result is the outcome of every
  turn that ended without one, the exception that ended the loop, and the world then.
\<close>

fun connect :: "message list \<Rightarrow> world \<Rightarrow> outcome list \<times> error \<times> world" where
  "connect [] w = ([], ConnectionClosed, w)"
| "connect (m # ms) w =
     (case loop_body m w of
        (Inl e, w1) \<Rightarrow> ([], e, w1)
      | (Inr oc, w1) \<Rightarrow>
          (case connect ms w1 of (ocs, e, w2) \<Rightarrow> (oc # ocs, e, w2)))"

subsection \<open>Mods\<close>

record Mod =
  name :: string
  filePath :: string
  size_bytes :: int


definition delete_mod :: "int \<Rightarrow> world \<Rightarrow> (error + unit) \<times> world" where
  "delete_mod mod_id w =
     (case post \<lparr>url = endpoint @ ''/api/mod/delete'',
                 form = [(''visitSecret'', Field (visit_secret w)),
                         (''modId'', Field (JInt mod_id))]\<rparr>
                (w\<lparr>mods_sync := False\<rparr>) of
        (None, w1) \<Rightarrow> (Inl RequestException, w1)
      | (Some resp, w1) \<Rightarrow>
          if \<not> ok resp then
            (Inl (Exception (''Error in deleting mod: '' @ resp_text resp)),
             w1\<lparr>mods_sync := True\<rparr>)
          else (Inr (), w1))"

text \<open>
  \<^verbatim>\<open>upload_mod\<close> opens the file first, then checks the size, then builds the multipart
  body, clears the flag and posts. The progress callback is called by the library while
  the body is streamed; those calls are not modelled.
\<close>

definition upload_mod :: "Mod \<Rightarrow> world \<Rightarrow> (error + unit) \<times> world" where
  "upload_mod m w =
     (case files w (filePath m) of
        None \<Rightarrow> (Inl OSError, w)
      | Some file \<Rightarrow>
          if size_bytes m > 268435456 then
            (Inl (Exception ''Mod file must be under 256MB''), w)
          else
            (case post \<lparr>url = endpoint @ ''/api/mod/upload'',
                        form = [(''visitSecret'', Field (visit_secret w)),
                                (''file'', File_part (name m) (filePath m)
                                             ''application/x-zip-compressed''),
                                (''size'', Text_of_int (size_bytes m))]\<rparr>
                       (w\<lparr>mods_sync := False\<rparr>) of
               (None, w1) \<Rightarrow> (Inl RequestException, w1)
             | (Some resp, w1) \<Rightarrow>
                 if \<not> ok resp then
                   (Inl (Exception (''Error uploading mod: '' @ resp_text resp)),
                    w1\<lparr>mods_sync := True\<rparr>)
                 else (Inr (), w1)))"

subsection \<open>Saves\<close>

record Save = Mod +
  slot :: string

definition delete_save_slot :: "string \<Rightarrow> world \<Rightarrow> (error + unit) \<times> world" where
  "delete_save_slot sl w =
     (case post \<lparr>url = endpoint @ ''/api/save/delete'',
                 form = [(''visitSecret'', Field (visit_secret w)),
                         (''save'', Field (JStr sl))]\<rparr>
                (w\<lparr>saves_sync := False\<rparr>) of
        (None, w1) \<Rightarrow> (Inl RequestException, w1)
      | (Some resp, w1) \<Rightarrow>
          if status_code resp \<noteq> 200 then
            (Inl (Exception (''Error deleting save: '' @ resp_text resp)),
             w1\<lparr>saves_sync := True\<rparr>)
          else (Inr (), w1))"

text \<open>
  The body of the download: every chunk that is not empty is appended to the file, and
  the callback is called with \<^verbatim>\<open>file.tell()\<close>, the length written so far.
\<close>

fun write_chunks :: "string \<Rightarrow> string list \<Rightarrow> world \<Rightarrow> world" where
  "write_chunks file_path [] w = w"
| "write_chunks file_path (chunk # rest) w =
     (if chunk \<noteq> [] then
        (let written = (case files w file_path of None \<Rightarrow> [] | Some c \<Rightarrow> c) @ chunk
         in write_chunks file_path rest
              (w\<lparr>files := (files w)(file_path \<mapsto> written),
                 calls := calls w @ [Progress_call (length written)]\<rparr>))
      else write_chunks file_path rest w)"

definition download_save_slot :: "string \<Rightarrow> string \<Rightarrow> world \<Rightarrow> (error + unit) \<times> world" where
  "download_save_slot sl file_path w =
     (case post \<lparr>url = endpoint @ ''/api/save/download'',
                 form = [(''visitSecret'', Field (visit_secret w)),
                         (''save'', Field (JStr sl))]\<rparr> w of
        (None, w1) \<Rightarrow> (Inl RequestException, w1)
      | (Some resp, w1) \<Rightarrow>
          if status_code resp \<noteq> 200 then
            (Inl (Exception (''Error downloading save: '' @ resp_text resp)),
             w1\<lparr>saves_sync := True\<rparr>)
          else if write_denied w1 file_path then (Inl OSError, w1)
          else (Inr (), write_chunks file_path (iter_content resp)
                          (w1\<lparr>files := (files w1)(file_path \<mapsto> [])\<rparr>)))"

definition upload_save :: "Save \<Rightarrow> world \<Rightarrow> (error + unit) \<times> world" where
  "upload_save s w =
     (case files w (filePath s) of
        None \<Rightarrow> (Inl OSError, w)
      | Some file \<Rightarrow>
          if size_bytes s > 100663296 then
            (Inl (Exception ''Save file must be under 96MB''), w)
          else
            (case post \<lparr>url = endpoint @ ''/api/save/upload'',
                        form = [(''visitSecret'', Field (visit_secret w)),
                                (''file'', File_part (name s) (filePath s)
                                             ''application/x-zip-compressed''),
                                (''size'', Text_of_int (size_bytes s)),
                                (''save'', Field (JStr (slot s)))]\<rparr>
                       (w\<lparr>saves_sync := False\<rparr>) of
               (None, w1) \<Rightarrow> (Inl RequestException, w1)
             | (Some resp, w1) \<Rightarrow>
                 if \<not> ok resp then
                   (Inl (Exception (''Error uploading save: '' @ resp_text resp)),
                    w1\<lparr>saves_sync := True\<rparr>)
                 else (Inr (), w1)))"

subsection \<open>Sequences of frames\<close>

text \<open>The integer sequence number of a frame, when it decodes to an object that has one.\<close>

definition num_of :: "message \<Rightarrow> int option" where
  "num_of m =
     (case m of
        Some (JObj d) \<Rightarrow> (case map_of d ''num'' of Some (JInt n) \<Rightarrow> Some n | _ \<Rightarrow> None)
      | _ \<Rightarrow> None)"

subsection \<open>Sample clients and events\<close>

text \<open>
  A client in a world where nothing has been issued yet: the responses to come and the
  readable files are given, every path can be written.
\<close>

definition world_of :: "fz_client \<Rightarrow> response option list \<Rightarrow> (string \<rightharpoonup> string) \<Rightarrow> world" where
  "world_of c rs fs =
     \<lparr>user_token = user_token c, visit_secret = visit_secret c, regions = regions c,
      versions = versions c, slots = slots c, saves = saves c, mods = mods c,
      running = running c, launch_id = launch_id c, region = region c,
      server_address = server_address c, server_status = server_status c,
      logs_listeners = logs_listeners c, message_listeners = message_listeners c,
      mods_sync = mods_sync c, saves_sync = saves_sync c,
      last_handled_message_num = last_handled_message_num c,
      responses = rs, posted = [], files = fs, write_denied = (\<lambda>p. False), calls = []\<rparr>"

definition fresh :: world where
  "fresh = world_of (FZClient JNull) [] Map.empty"

definition seen_five :: world where
  "seen_five = fresh\<lparr>last_handled_message_num := 5\<rparr>"

definition synced :: "response option list \<Rightarrow> world" where
  "synced rs = (world_of (FZClient (JStr ''token'')) rs Map.empty)\<lparr>mods_sync := True, saves_sync := True\<rparr>"

definition answer :: "int \<Rightarrow> string \<Rightarrow> response" where
  "answer code body =
     \<lparr>status_code = code, resp_text = body, resp_json = None, iter_content = [body]\<rparr>"

definition warn_event :: "int \<Rightarrow> data" where
  "warn_event n = [(''type'', JStr ''warn''), (''num'', JInt n)]"

definition bare_warn :: data where
  "bare_warn = [(''type'', JStr ''warn'')]"

definition idle_event :: "int \<Rightarrow> data" where
  "idle_event n = [(''type'', JStr ''idle''), (''num'', JInt n)]"

definition mods_event_0 :: data where
  "mods_event_0 = [(''type'', JStr ''mods''), (''mods'', JList []), (''num'', JInt 0)]"

definition starting_abc :: data where
  "starting_abc = [(''type'', JStr ''starting''), (''launchId'', JStr ''abc''), (''num'', JInt 4)]"

definition running_abc :: data where
  "running_abc =
     [(''type'', JStr ''running''), (''launchId'', JStr ''abc''),
      (''socket'', JStr ''1.2.3.4:1234''), (''num'', JInt 5)]"

definition big_mod :: Mod where
  "big_mod = \<lparr>name = ''big.zip'', filePath = ''mods/big.zip'', size_bytes = 314572800\<rparr>"

definition big_save :: Save where
  "big_save = \<lparr>name = ''big.zip'', filePath = ''saves/big.zip'', size_bytes = 104857600,
                slot = ''slot1''\<rparr>"

definition with_files :: world where
  "with_files = world_of (FZClient (JStr ''token'')) []
                  [''mods/big.zip'' \<mapsto> ''PK'', ''saves/big.zip'' \<mapsto> ''PK'']"

section \<open>Properties\<close>

lemmas sample_defs = fresh_def seen_five_def synced_def answer_def world_of_def FZClient_def
  warn_event_def bare_warn_def idle_event_def mods_event_0_def starting_abc_def running_abc_def
  big_mod_def big_save_def with_files_def

subsection \<open>One turn of the loop\<close>

lemma loop_body_dict:
  "loop_body (Some (JObj d)) w =
     (case sequence_check d w of
        (Inl e, w1) \<Rightarrow> (Inl e, w1)
      | (Inr False, w1) \<Rightarrow> (Inr Dropped, w1)
      | (Inr True, w1) \<Rightarrow> process d w1)"
  by (simp add: loop_body_def json_loads_def)

lemma sequence_check_absent:
  "map_of d ''num'' = None \<Longrightarrow> sequence_check d w = (Inr True, w)"
  by (simp add: sequence_check_def dict_get_def)

lemma sequence_check_zero:
  "map_of d ''num'' = Some (JInt 0) \<Longrightarrow> sequence_check d w = (Inr True, w)"
  by (simp add: sequence_check_def dict_get_def)

lemma sequence_check_old:
  "map_of d ''num'' = Some (JInt n) \<Longrightarrow> n \<noteq> 0 \<Longrightarrow> n \<le> last_handled_message_num w \<Longrightarrow>
   sequence_check d w = (Inr False, w)"
  by (simp add: sequence_check_def dict_get_def)

lemma sequence_check_new:
  "map_of d ''num'' = Some (JInt n) \<Longrightarrow> n \<noteq> 0 \<Longrightarrow> last_handled_message_num w < n \<Longrightarrow>
   sequence_check d w = (Inr True, w\<lparr>last_handled_message_num := n\<rparr>)"
  by (simp add: sequence_check_def dict_get_def)

lemma loop_body_processed:
  "loop_body (Some (JObj d)) w = (Inr Processed, w') \<Longrightarrow>
   \<exists>w1. sequence_check d w = (Inr True, w1) \<and> process d w1 = (Inr Processed, w')"
  by (auto simp: loop_body_dict split: prod.splits sum.splits bool.splits)

lemma process_outcome: "process d w = (Inr oc, w') \<Longrightarrow> oc = Processed"
  by (auto simp: process_def split: prod.splits sum.splits)

lemma dispatch_idle:
  "map_of d ''type'' = Some (JStr ''idle'') \<Longrightarrow>
   dispatch d w = (Inr (), w\<lparr>running := False, launch_id := JNull, server_status := OFFLINE,
                        last_handled_message_num := - 1, server_address := JNull\<rparr>)"
  by (simp add: dispatch_def)

lemma dispatch_running:
  "map_of d ''type'' = Some (JStr ''running'') \<Longrightarrow>
   dispatch d w = (Inr (), w\<lparr>running := True, launch_id := dict_get d ''launchId'',
                        server_address := dict_get d ''socket'',
                        server_status := RUNNING\<rparr>)"
  by (simp add: dispatch_def)

subsection \<open>What a turn does to the sequence number\<close>

text \<open>Only the sequence check and the \<^verbatim>\<open>idle\<close> branch write \<^verbatim>\<open>last_handled_message_num\<close>.\<close>

lemma on_new_message_num [simp]:
  "last_handled_message_num (on_new_message d w) = last_handled_message_num w"
  by (simp add: on_new_message_def)

lemma on_new_log_num [simp]:
  "last_handled_message_num (on_new_log l w) = last_handled_message_num w"
  by (simp add: on_new_log_def)

lemma post_num:
  "post rq w = (r, w') \<Longrightarrow> last_handled_message_num w' = last_handled_message_num w"
  by (auto simp: post_def Let_def split: list.splits)

lemma login_num:
  "login w = (r, w') \<Longrightarrow> last_handled_message_num w' = last_handled_message_num w"
  by (auto simp: login_def dest!: post_num split: prod.splits option.splits if_splits json.splits)

lemma dispatch_options_num:
  "dispatch_options d w = (r, w') \<Longrightarrow> last_handled_message_num w' = last_handled_message_num w"
  by (auto simp: dispatch_options_def split: option.splits if_splits)

lemma dispatch_info_num:
  "dispatch_info d w = (r, w') \<Longrightarrow> last_handled_message_num w' = last_handled_message_num w"
  by (auto simp: dispatch_info_def split: option.splits json.splits)

lemma dispatch_num:
  "dispatch d w = (r, w') \<Longrightarrow>
   last_handled_message_num w' = last_handled_message_num w \<or> last_handled_message_num w' = - 1"
  by (auto simp: dispatch_def dest!: login_num dispatch_options_num dispatch_info_num
           split: option.splits if_splits)

lemma process_num:
  "process d w = (r, w') \<Longrightarrow>
   last_handled_message_num w' = last_handled_message_num w \<or> last_handled_message_num w' = - 1"
  by (auto simp: process_def dest!: dispatch_num split: prod.splits sum.splits)

subsection \<open>How the loop ends\<close>

text \<open>No turn raises \<open>ConnectionClosed\<close>: that error means the frames were used up.\<close>

lemma login_not_closed: "login w = (Inl e, w') \<Longrightarrow> e \<noteq> ConnectionClosed"
  by (auto simp: login_def split: prod.splits option.splits if_splits json.splits)

lemma dispatch_not_closed: "dispatch d w = (Inl e, w') \<Longrightarrow> e \<noteq> ConnectionClosed"
  by (auto simp: dispatch_def dispatch_options_def dispatch_info_def dest: login_not_closed
           split: option.splits if_splits json.splits)

lemma process_not_closed: "process d w = (Inl e, w') \<Longrightarrow> e \<noteq> ConnectionClosed"
  by (auto simp: process_def dest: dispatch_not_closed split: prod.splits sum.splits)

lemma sequence_check_not_closed: "sequence_check d w = (Inl e, w') \<Longrightarrow> e \<noteq> ConnectionClosed"
  by (auto simp: sequence_check_def Let_def split: option.splits if_splits)

lemma loop_body_not_closed: "loop_body m w = (Inl e, w') \<Longrightarrow> e \<noteq> ConnectionClosed"
  by (auto simp: loop_body_def json_loads_def
           dest: process_not_closed sequence_check_not_closed
           split: option.splits json.splits prod.splits sum.splits bool.splits)

lemma connect_closed:
  "connect ms w = (ocs, ConnectionClosed, w') \<Longrightarrow> length ocs = length ms"
proof (induction ms arbitrary: w ocs w')
  case Nil
  then show ?case by simp
next
  case (Cons m ms)
  obtain r w1 where lb: "loop_body m w = (r, w1)" by (cases "loop_body m w")
  show ?case
  proof (cases r)
    case (Inl e)
    then show ?thesis using Cons.prems lb loop_body_not_closed by auto
  next
    case (Inr oc)
    obtain ocs1 e1 w2 where c: "connect ms w1 = (ocs1, e1, w2)" by (cases "connect ms w1")
    with Cons.prems lb Inr have "ocs = oc # ocs1" "e1 = ConnectionClosed" by auto
    with Cons.IH [of w1 ocs1 w2] c show ?thesis by simp
  qed
qed

subsection \<open>The sequence check on one event\<close>

text \<open>
  Claim C1, as amended. For every inbound event that carries a nonzero integer \<^verbatim>\<open>num\<close>:
  when \<^verbatim>\<open>num <= lastHandledSeq\<close> the turn of the receive loop drops the event and leaves
  the whole state as it was; otherwise the turn sets \<^verbatim>\<open>lastHandledSeq = num\<close> and processes
  the event in that state. Every event without a \<^verbatim>\<open>num\<close> field is processed in the
  state as it is.
\<close>

theorem sequence_check_nonzero_num:
  "(map_of d ''num'' = Some (JInt n) \<and> n \<noteq> 0 \<and> n \<le> last_handled_message_num w \<longrightarrow>
      loop_body (Some (JObj d)) w = (Inr Dropped, w)) \<and>
   (map_of d ''num'' = Some (JInt n) \<and> n \<noteq> 0 \<and> last_handled_message_num w < n \<longrightarrow>
      loop_body (Some (JObj d)) w = process d (w\<lparr>last_handled_message_num := n\<rparr>)) \<and>
   (map_of d ''num'' = None \<longrightarrow> loop_body (Some (JObj d)) w = process d w)"
  by (simp add: loop_body_dict sequence_check_absent sequence_check_old sequence_check_new)

text \<open>The three cases of C1 as amended, at events numbered 3 and 7 and at one without a number.\<close>

theorem sequence_check_nonzero_num_witness:
  "(map_of (warn_event 3) ''num'' = Some (JInt 3) \<and> (3::int) \<noteq> 0 \<and>
    3 \<le> last_handled_message_num seen_five \<and>
    loop_body (Some (JObj (warn_event 3))) seen_five = (Inr Dropped, seen_five)) \<and>
   (map_of (warn_event 7) ''num'' = Some (JInt 7) \<and> (7::int) \<noteq> 0 \<and>
    last_handled_message_num seen_five < 7 \<and>
    loop_body (Some (JObj (warn_event 7))) seen_five =
      process (warn_event 7) (seen_five\<lparr>last_handled_message_num := 7\<rparr>)) \<and>
   (map_of bare_warn ''num'' = None \<and>
    loop_body (Some (JObj bare_warn)) seen_five = process bare_warn seen_five)"
  using sequence_check_nonzero_num [of "warn_event 3" 3 seen_five]
    sequence_check_nonzero_num [of "warn_event 7" 7 seen_five]
    sequence_check_nonzero_num [of bare_warn 0 seen_five]
  by (simp add: warn_event_def bare_warn_def seen_five_def)

text \<open>
  Claim C1 as stated fails at \<^verbatim>\<open>num = 0\<close>. With \<^verbatim>\<open>lastHandledSeq = 5\<close> a \<^verbatim>\<open>mods\<close> event
  numbered 0 is not dropped although \<^verbatim>\<open>0 <= 5\<close>: it is processed and sets \<^verbatim>\<open>mods_sync\<close>.
  With \<^verbatim>\<open>lastHandledSeq = -1\<close> the same event is processed, but \<^verbatim>\<open>lastHandledSeq\<close> is not
  set to 0.
\<close>

theorem zero_num_not_dropped:
  "map_of mods_event_0 ''num'' = Some (JInt 0) \<and>
   0 \<le> last_handled_message_num seen_five \<and>
   fst (loop_body (Some (JObj mods_event_0)) seen_five) = Inr Processed \<and>
   \<not> mods_sync seen_five \<and>
   mods_sync (snd (loop_body (Some (JObj mods_event_0)) seen_five)) \<and>
   last_handled_message_num fresh = - 1 \<and>
   fst (loop_body (Some (JObj mods_event_0)) fresh) = Inr Processed \<and>
   last_handled_message_num (snd (loop_body (Some (JObj mods_event_0)) fresh)) = - 1"
  by (simp add: sample_defs loop_body_dict sequence_check_zero process_def dispatch_def
        on_new_message_def)

text \<open>
  Claim C9. An inbound event whose \<^verbatim>\<open>num\<close> is 0 passes the sequence check whatever
  \<^verbatim>\<open>lastHandledSeq\<close> is, the check leaves the state (and so \<^verbatim>\<open>lastHandledSeq\<close>) as it
  was, the event is then processed, and the check answers exactly as it does for the same
  event with the \<^verbatim>\<open>num\<close> field taken away.
\<close>

theorem num_zero_is_no_num:
  "map_of d ''num'' = Some (JInt 0) \<Longrightarrow>
     sequence_check d w = (Inr True, w) \<and>
     loop_body (Some (JObj d)) w = process d w \<and>
     sequence_check d w = sequence_check (filter (\<lambda>kv. fst kv \<noteq> ''num'') d) w"
proof -
  assume z: "map_of d ''num'' = Some (JInt 0)"
  have "map_of (filter (\<lambda>kv. fst kv \<noteq> ''num'') d) ''num'' = None"
    by (induction d) auto
  then show ?thesis using z
    by (simp add: loop_body_dict sequence_check_absent sequence_check_zero)
qed

text \<open>C9 at a \<^verbatim>\<open>mods\<close> event numbered 0 while \<^verbatim>\<open>lastHandledSeq\<close> is 5.\<close>

theorem num_zero_is_no_num_witness:
  "map_of mods_event_0 ''num'' = Some (JInt 0) \<and>
   0 \<le> last_handled_message_num seen_five \<and>
   sequence_check mods_event_0 seen_five = (Inr True, seen_five) \<and>
   loop_body (Some (JObj mods_event_0)) seen_five = process mods_event_0 seen_five"
  using num_zero_is_no_num [of mods_event_0 seen_five]
  by (simp add: mods_event_0_def seen_five_def)

subsection \<open>Frames that do not decode\<close>

text \<open>
  Claim C3, as amended. A frame whose JSON decoding fails ends the receive loop: the
  decoding error leaves \<^verbatim>\<open>connect\<close>, the frames that follow are never handled, and the
  state is as it was before the frame.
\<close>

theorem undecodable_frame_ends_loop:
  "connect (None # ms) w = ([], JSONDecodeError, w)"
  by (simp add: loop_body_def json_loads_def)

text \<open>
  Claim C3 as stated fails: after a frame that does not decode the loop does not go on to
  the next frame, which it would have processed had it come alone.
\<close>

theorem undecodable_frame_stops_loop:
  "fst (connect [None, Some (JObj bare_warn)] fresh) = [] \<and>
   fst (snd (connect [None, Some (JObj bare_warn)] fresh)) = JSONDecodeError \<and>
   fst (connect [Some (JObj bare_warn)] fresh) = [Processed]"
  by (simp add: loop_body_def json_loads_def sequence_check_def dict_get_def bare_warn_def
        process_def dispatch_def)

subsection \<open>Sequences of numbered events\<close>

lemma num_of_SomeD:
  "num_of m = Some n \<Longrightarrow> \<exists>d. m = Some (JObj d) \<and> map_of d ''num'' = Some (JInt n)"
  by (auto simp: num_of_def split: option.splits json.splits)

text \<open>
  A turn on an event numbered above the last handled number: the check accepts it, the
  turn does not drop it, and the number stored afterwards is between -1 and the event's.
\<close>

lemma numbered_turn:
  assumes "num_of m = Some n" "last_handled_message_num w < n"
    "- 1 \<le> last_handled_message_num w" "loop_body m w = (r, w2)"
  shows "r \<noteq> Inr Dropped \<and> - 1 \<le> last_handled_message_num w2 \<and>
         last_handled_message_num w2 \<le> n \<and>
         (\<exists>d. m = Some (JObj d) \<and> fst (sequence_check d w) = Inr True)"
proof -
  from assms(1) obtain d where m: "m = Some (JObj d)" and num: "map_of d ''num'' = Some (JInt n)"
    using num_of_SomeD by blast
  obtain w1 where sc: "sequence_check d w = (Inr True, w1)"
    and w1_lo: "- 1 \<le> last_handled_message_num w1" and w1_hi: "last_handled_message_num w1 \<le> n"
  proof (cases "n = 0")
    case True
    with num assms(2,3) that show ?thesis by (simp add: sequence_check_zero)
  next
    case False
    with num assms(2,3) that show ?thesis by (simp add: sequence_check_new)
  qed
  have pr: "process d w1 = (r, w2)" using assms(4) m sc by (simp add: loop_body_dict)
  have "r \<noteq> Inr Dropped" using pr process_outcome by fastforce
  moreover from process_num [OF pr] w1_lo w1_hi
  have "- 1 \<le> last_handled_message_num w2" "last_handled_message_num w2 \<le> n"
    by auto
  ultimately show ?thesis using m sc by simp
qed

lemma increasing_never_dropped:
  "map num_of ms = map Some ns \<Longrightarrow> sorted_wrt (<) ns \<Longrightarrow>
   \<forall>n\<in>set ns. last_handled_message_num w < n \<Longrightarrow>
   - 1 \<le> last_handled_message_num w \<Longrightarrow>
   Dropped \<notin> set (fst (connect ms w))"
proof (induction ms arbitrary: ns w)
  case Nil
  then show ?case by simp
next
  case (Cons m ms)
  from Cons.prems(1) obtain n ns' where ns: "ns = n # ns'" and n: "num_of m = Some n"
    and rest: "map num_of ms = map Some ns'" by (cases ns) auto
  obtain r w2 where lb: "loop_body m w = (r, w2)" by (cases "loop_body m w")
  have above: "last_handled_message_num w < n" using Cons.prems(3) ns by simp
  note t = numbered_turn [OF n above Cons.prems(4) lb]
  show ?case
  proof (cases r)
    case (Inl e)
    then show ?thesis using lb by simp
  next
    case (Inr oc)
    then have oc: "oc = Processed" using t by (cases oc) auto
    have "\<forall>k\<in>set ns'. last_handled_message_num w2 < k"
      using Cons.prems(2) ns t by auto
    moreover have "sorted_wrt (<) ns'" using Cons.prems(2) ns by simp
    ultimately have "Dropped \<notin> set (fst (connect ms w2))"
      using Cons.IH [OF rest] t by blast
    then show ?thesis using lb Inr oc by (auto split: prod.splits)
  qed
qed

lemma reached_event_accepted:
  "map num_of (pre @ Some (JObj d) # rest) = map Some ns \<Longrightarrow> sorted_wrt (<) ns \<Longrightarrow>
   \<forall>n\<in>set ns. last_handled_message_num w < n \<Longrightarrow>
   - 1 \<le> last_handled_message_num w \<Longrightarrow>
   connect pre w = (ocs, ConnectionClosed, w1) \<Longrightarrow>
   fst (sequence_check d w1) = Inr True"
proof (induction pre arbitrary: ns w ocs)
  case Nil
  from Nil.prems(1) obtain n ns' where ns: "ns = n # ns'" and n: "num_of (Some (JObj d)) = Some n"
    by (cases ns) auto
  obtain r w2 where lb: "loop_body (Some (JObj d)) w = (r, w2)"
    by (cases "loop_body (Some (JObj d)) w")
  have "last_handled_message_num w < n" using Nil.prems(3) ns by simp
  from numbered_turn [OF n this Nil.prems(4) lb] Nil.prems(5) show ?case by simp
next
  case (Cons m pre)
  from Cons.prems(1) obtain n ns' where ns: "ns = n # ns'" and n: "num_of m = Some n"
    and rest: "map num_of (pre @ Some (JObj d) # rest) = map Some ns'" by (cases ns) auto
  obtain r w2 where lb: "loop_body m w = (r, w2)" by (cases "loop_body m w")
  have above: "last_handled_message_num w < n" using Cons.prems(3) ns by simp
  note t = numbered_turn [OF n above Cons.prems(4) lb]
  show ?case
  proof (cases r)
    case (Inl e)
    then show ?thesis using Cons.prems(5) lb loop_body_not_closed by auto
  next
    case (Inr oc)
    obtain ocs1 e1 w3 where c: "connect pre w2 = (ocs1, e1, w3)" by (cases "connect pre w2")
    with Cons.prems(5) lb Inr have c': "connect pre w2 = (ocs1, ConnectionClosed, w1)" by auto
    have "\<forall>k\<in>set ns'. last_handled_message_num w2 < k"
      using Cons.prems(2) ns t by auto
    moreover have "sorted_wrt (<) ns'" using Cons.prems(2) ns by simp
    ultimately show ?thesis using Cons.IH [OF rest _ _ _ c'] t by blast
  qed
qed

text \<open>
  Claim C4, as amended. For every sequence of inbound events whose \<^verbatim>\<open>num\<close> fields are
  integers that increase strictly and lie above the current \<^verbatim>\<open>lastHandledSeq\<close> (itself at
  least -1, its initial value): no event the loop handles is dropped; when the loop runs
  until the socket closes, every event of the sequence has been processed, once each; and
  every event the loop reaches, the events before it handled without an exception, passes
  the sequence check.
\<close>

theorem increasing_nums_all_processed:
  "map num_of ms = map Some ns \<Longrightarrow> sorted_wrt (<) ns \<Longrightarrow>
   \<forall>n\<in>set ns. last_handled_message_num w < n \<Longrightarrow>
   - 1 \<le> last_handled_message_num w \<Longrightarrow>
   Dropped \<notin> set (fst (connect ms w)) \<and>
   (fst (snd (connect ms w)) = ConnectionClosed \<longrightarrow>
      fst (connect ms w) = replicate (length ms) Processed) \<and>
   (\<forall>pre d rest ocs w1.
      ms = pre @ Some (JObj d) # rest \<and> connect pre w = (ocs, ConnectionClosed, w1) \<longrightarrow>
      fst (sequence_check d w1) = Inr True)"
proof -
  assume a: "map num_of ms = map Some ns" "sorted_wrt (<) ns"
    "\<forall>n\<in>set ns. last_handled_message_num w < n" "- 1 \<le> last_handled_message_num w"
  obtain ocs e w' where c: "connect ms w = (ocs, e, w')" by (cases "connect ms w")
  have nd: "Dropped \<notin> set ocs" using increasing_never_dropped [OF a] c by simp
  have "ocs = replicate (length ms) Processed" if "e = ConnectionClosed"
  proof -
    have len: "length ocs = length ms" using c that connect_closed by blast
    have "\<forall>oc\<in>set ocs. oc = Processed" using nd by (metis outcome.exhaust)
    then have "ocs = replicate (length ocs) Processed" by (simp add: replicate_length_same)
    with len show ?thesis by simp
  qed
  moreover have "fst (sequence_check d w1) = Inr True"
    if "ms = pre @ Some (JObj d) # rest" "connect pre w = (ocs1, ConnectionClosed, w1)"
    for pre d rest ocs1 w1
    using reached_event_accepted [OF _ a(2,3,4) that(2)] a(1) that(1) by blast
  ultimately show ?thesis using nd c by auto
qed

text \<open>
  C4 as amended at the events numbered 0, 1, 2 (an \<^verbatim>\<open>idle\<close> event) and 3, from a new
  client; the event reached is the third.
\<close>

theorem increasing_nums_all_processed_witness:
  "map num_of [Some (JObj (warn_event 0)), Some (JObj (warn_event 1)),
               Some (JObj (idle_event 2)), Some (JObj (warn_event 3))] =
     map Some [0, 1, 2, 3] \<and>
   sorted_wrt (<) [0, 1, 2, 3 :: int] \<and>
   last_handled_message_num fresh < 0 \<and>
   - 1 \<le> last_handled_message_num fresh \<and>
   fst (snd (connect [Some (JObj (warn_event 0)), Some (JObj (warn_event 1)),
                      Some (JObj (idle_event 2)), Some (JObj (warn_event 3))] fresh)) =
     ConnectionClosed \<and>
   fst (connect [Some (JObj (warn_event 0)), Some (JObj (warn_event 1)),
                 Some (JObj (idle_event 2)), Some (JObj (warn_event 3))] fresh) =
     [Processed, Processed, Processed, Processed] \<and>
   fst (snd (connect [Some (JObj (warn_event 0)), Some (JObj (warn_event 1))] fresh)) =
     ConnectionClosed \<and>
   fst (sequence_check (idle_event 2)
         (snd (snd (connect [Some (JObj (warn_event 0)), Some (JObj (warn_event 1))] fresh)))) =
     Inr True"
proof -
  let ?pre = "[Some (JObj (warn_event 0)), Some (JObj (warn_event 1))]"
  let ?ms = "[Some (JObj (warn_event 0)), Some (JObj (warn_event 1)),
              Some (JObj (idle_event 2)), Some (JObj (warn_event 3))]"
  have a: "map num_of ?ms = map Some [0, 1, 2, 3]"
    by (simp add: num_of_def warn_event_def idle_event_def)
  have b: "sorted_wrt (<) [0, 1, 2, 3 :: int]" by simp
  have l: "last_handled_message_num fresh = - 1" by (simp add: sample_defs)
  have c: "\<forall>n\<in>set [0, 1, 2, 3 :: int]. last_handled_message_num fresh < n"
    using l by simp
  have d: "- 1 \<le> last_handled_message_num fresh" using l by simp
  have e: "fst (snd (connect ?ms fresh)) = ConnectionClosed"
    by (simp add: loop_body_dict sequence_check_def dict_get_def process_def dispatch_def
          on_new_message_def sample_defs)
  have f: "fst (snd (connect ?pre fresh)) = ConnectionClosed"
    by (simp add: loop_body_dict sequence_check_def dict_get_def process_def dispatch_def
          on_new_message_def sample_defs)
  then have g: "connect ?pre fresh =
      (fst (connect ?pre fresh), ConnectionClosed, snd (snd (connect ?pre fresh)))"
    by (simp add: prod_eq_iff)
  have h: "?ms = ?pre @ Some (JObj (idle_event 2)) # [Some (JObj (warn_event 3))]" by simp
  note t = increasing_nums_all_processed [OF a b c d]
  from t have "fst (sequence_check (idle_event 2) (snd (snd (connect ?pre fresh)))) = Inr True"
    using g h by blast
  with t e f a b l show ?thesis by (simp add: numeral_eq_Suc)
qed

text \<open>
  Claim C4 as stated fails on a sequence that is non-decreasing but not increasing: of two
  events numbered 1 the second is dropped. It fails as well on an increasing sequence
  that does not begin above \<^verbatim>\<open>lastHandledSeq\<close>: with 5 handled, the events numbered 1 and
  2 are both dropped.
\<close>

theorem nondecreasing_nums_dropped:
  "map num_of [Some (JObj (warn_event 1)), Some (JObj (warn_event 1))] = [Some 1, Some 1] \<and>
   fst (connect [Some (JObj (warn_event 1)), Some (JObj (warn_event 1))] fresh) =
     [Processed, Dropped] \<and>
   map num_of [Some (JObj (warn_event 1)), Some (JObj (warn_event 2))] = [Some 1, Some 2] \<and>
   fst (connect [Some (JObj (warn_event 1)), Some (JObj (warn_event 2))] seen_five) =
     [Dropped, Dropped]"
  by (simp add: num_of_def loop_body_dict sequence_check_def dict_get_def process_def dispatch_def
        on_new_message_def sample_defs)

subsection \<open>The \<^verbatim>\<open>idle\<close> event\<close>

text \<open>
  Claim C5. After the receive loop has processed an \<^verbatim>\<open>idle\<close> event, whatever \<^verbatim>\<open>num\<close> that
  event carries, \<^verbatim>\<open>lastHandledSeq\<close> is -1, and every event with an integer \<^verbatim>\<open>num >= 0\<close>
  that comes next passes the sequence check and is processed.
\<close>

theorem idle_resets_sequence:
  "map_of d ''type'' = Some (JStr ''idle'') \<Longrightarrow>
   fst (loop_body (Some (JObj d)) w) = Inr Processed \<Longrightarrow>
   last_handled_message_num (snd (loop_body (Some (JObj d)) w)) = - 1 \<and>
   (\<forall>d' n. map_of d' ''num'' = Some (JInt n) \<and> 0 \<le> n \<longrightarrow>
      fst (sequence_check d' (snd (loop_body (Some (JObj d)) w))) = Inr True \<and>
      loop_body (Some (JObj d')) (snd (loop_body (Some (JObj d)) w)) =
        process d' (snd (sequence_check d' (snd (loop_body (Some (JObj d)) w)))))"
proof -
  assume idle: "map_of d ''type'' = Some (JStr ''idle'')"
    and acc: "fst (loop_body (Some (JObj d)) w) = Inr Processed"
  define w' where "w' = snd (loop_body (Some (JObj d)) w)"
  have "loop_body (Some (JObj d)) w = (Inr Processed, w')"
    using acc by (simp add: w'_def prod_eq_iff)
  then obtain w1 where "process d w1 = (Inr Processed, w')"
    using loop_body_processed by blast
  then have reset: "last_handled_message_num w' = - 1"
    using idle by (auto simp: process_def dispatch_idle on_new_message_def)
  have "fst (sequence_check d' w') = Inr True \<and>
        loop_body (Some (JObj d')) w' = process d' (snd (sequence_check d' w'))"
    if "map_of d' ''num'' = Some (JInt n)" "0 \<le> n" for d' n
  proof (cases "n = 0")
    case True
    then show ?thesis using that
      by (simp add: loop_body_dict sequence_check_zero)
  next
    case False
    then have "last_handled_message_num w' < n" using that reset by simp
    then show ?thesis using that False
      by (simp add: loop_body_dict sequence_check_new)
  qed
  then show ?thesis using reset unfolding w'_def by blast
qed

text \<open>
  C5 at an \<^verbatim>\<open>idle\<close> event numbered 7 received while \<^verbatim>\<open>lastHandledSeq\<close> is 5, followed
  by an event numbered 2.
\<close>

theorem idle_resets_sequence_witness:
  "map_of (idle_event 7) ''type'' = Some (JStr ''idle'') \<and>
   fst (loop_body (Some (JObj (idle_event 7))) seen_five) = Inr Processed \<and>
   last_handled_message_num (snd (loop_body (Some (JObj (idle_event 7))) seen_five)) = - 1 \<and>
   map_of (warn_event 2) ''num'' = Some (JInt 2) \<and> (0::int) \<le> 2 \<and>
   fst (sequence_check (warn_event 2) (snd (loop_body (Some (JObj (idle_event 7))) seen_five)))
     = Inr True"
proof -
  have t: "map_of (idle_event 7) ''type'' = Some (JStr ''idle'')"
    by (simp add: idle_event_def)
  have p: "fst (loop_body (Some (JObj (idle_event 7))) seen_five) = Inr Processed"
    by (simp add: loop_body_dict sequence_check_def dict_get_def process_def dispatch_def
          sample_defs)
  have n: "map_of (warn_event 2) ''num'' = Some (JInt 2)"
    by (simp add: warn_event_def)
  from idle_resets_sequence [OF t p] n t p show ?thesis by simp
qed

subsection \<open>The \<^verbatim>\<open>running\<close> event\<close>

text \<open>
  Claim C8. Every \<^verbatim>\<open>running\<close> event that the loop processes sets \<^verbatim>\<open>running\<close> to true,
  \<^verbatim>\<open>launch_id\<close> to the event's \<^verbatim>\<open>launchId\<close>, \<^verbatim>\<open>server_address\<close> to the event's
  \<^verbatim>\<open>socket\<close> and \<^verbatim>\<open>server_status\<close> to \<^verbatim>\<open>RUNNING\<close>. In particular the \<^verbatim>\<open>starting\<close> event
  numbered 4 followed by the \<^verbatim>\<open>running\<close> event numbered 5 with launchId "abc" and socket
  "1.2.3.4:1234", received in any state whose \<^verbatim>\<open>lastHandledSeq\<close> is below 4, are both
  processed and leave running = true, launchId = "abc", serverAddress = "1.2.3.4:1234",
  serverStatus = RUNNING.
\<close>

theorem running_event_sets_session:
  "(map_of d ''type'' = Some (JStr ''running'') \<and>
    fst (loop_body (Some (JObj d)) w) = Inr Processed \<longrightarrow>
      running (snd (loop_body (Some (JObj d)) w)) \<and>
      launch_id (snd (loop_body (Some (JObj d)) w)) = dict_get d ''launchId'' \<and>
      server_address (snd (loop_body (Some (JObj d)) w)) = dict_get d ''socket'' \<and>
      server_status (snd (loop_body (Some (JObj d)) w)) = RUNNING) \<and>
   (last_handled_message_num v < 4 \<longrightarrow>
      fst (connect [Some (JObj starting_abc), Some (JObj running_abc)] v) =
        [Processed, Processed] \<and>
      running (snd (snd (connect [Some (JObj starting_abc), Some (JObj running_abc)] v))) \<and>
      launch_id (snd (snd (connect [Some (JObj starting_abc), Some (JObj running_abc)] v))) =
        JStr ''abc'' \<and>
      server_address (snd (snd (connect [Some (JObj starting_abc), Some (JObj running_abc)] v))) =
        JStr ''1.2.3.4:1234'' \<and>
      server_status (snd (snd (connect [Some (JObj starting_abc), Some (JObj running_abc)] v))) =
        RUNNING)"
proof (intro conjI impI)
  assume a: "map_of d ''type'' = Some (JStr ''running'') \<and>
    fst (loop_body (Some (JObj d)) w) = Inr Processed"
  define w' where "w' = snd (loop_body (Some (JObj d)) w)"
  have "loop_body (Some (JObj d)) w = (Inr Processed, w')"
    using a by (simp add: w'_def prod_eq_iff)
  then obtain w1 where "process d w1 = (Inr Processed, w')"
    using loop_body_processed by blast
  then have "w' = on_new_message d (w1\<lparr>running := True, launch_id := dict_get d ''launchId'',
                        server_address := dict_get d ''socket'',
                        server_status := RUNNING\<rparr>)"
    using a by (auto simp: process_def dispatch_running)
  then have "running w' \<and> launch_id w' = dict_get d ''launchId'' \<and>
     server_address w' = dict_get d ''socket'' \<and> server_status w' = RUNNING"
    by (simp add: on_new_message_def)
  then show "running (snd (loop_body (Some (JObj d)) w))"
    "launch_id (snd (loop_body (Some (JObj d)) w)) = dict_get d ''launchId''"
    "server_address (snd (loop_body (Some (JObj d)) w)) = dict_get d ''socket''"
    "server_status (snd (loop_body (Some (JObj d)) w)) = RUNNING"
    by (simp_all add: w'_def)
next
  assume b: "last_handled_message_num v < 4"
  let ?c = "connect [Some (JObj starting_abc), Some (JObj running_abc)] v"
  define w1 where "w1 = on_new_message starting_abc
         (v\<lparr>last_handled_message_num := 4, running := True, launch_id := JStr ''abc'',
            server_status := STARTING\<rparr>)"
  have s: "loop_body (Some (JObj starting_abc)) v = (Inr Processed, w1)"
    using b by (simp add: w1_def loop_body_dict sequence_check_def dict_get_def process_def
        dispatch_def starting_abc_def)
  have "last_handled_message_num w1 = 4" by (simp add: w1_def)
  then have r: "loop_body (Some (JObj running_abc)) w1 =
      (Inr Processed, on_new_message running_abc
          (w1\<lparr>last_handled_message_num := 5, running := True, launch_id := JStr ''abc'',
            server_address := JStr ''1.2.3.4:1234'', server_status := RUNNING\<rparr>))"
    by (simp add: loop_body_dict sequence_check_def dict_get_def process_def
        dispatch_def running_abc_def)
  show "fst ?c = [Processed, Processed]" "running (snd (snd ?c))"
    "launch_id (snd (snd ?c)) = JStr ''abc''"
    "server_address (snd (snd ?c)) = JStr ''1.2.3.4:1234''"
    "server_status (snd (snd ?c)) = RUNNING"
    by (simp_all add: s r on_new_message_def)
qed

text \<open>C8 at the \<^verbatim>\<open>running\<close> event of the example and at a new client.\<close>

theorem running_event_sets_session_witness:
  "map_of running_abc ''type'' = Some (JStr ''running'') \<and>
   fst (loop_body (Some (JObj running_abc)) fresh) = Inr Processed \<and>
   running (snd (loop_body (Some (JObj running_abc)) fresh)) \<and>
   launch_id (snd (loop_body (Some (JObj running_abc)) fresh)) = JStr ''abc'' \<and>
   server_address (snd (loop_body (Some (JObj running_abc)) fresh)) = JStr ''1.2.3.4:1234'' \<and>
   server_status (snd (loop_body (Some (JObj running_abc)) fresh)) = RUNNING \<and>
   last_handled_message_num fresh < 4 \<and>
   fst (connect [Some (JObj starting_abc), Some (JObj running_abc)] fresh) =
     [Processed, Processed] \<and>
   running (snd (snd (connect [Some (JObj starting_abc), Some (JObj running_abc)] fresh))) \<and>
   launch_id (snd (snd (connect [Some (JObj starting_abc), Some (JObj running_abc)] fresh))) =
     JStr ''abc'' \<and>
   server_address (snd (snd (connect [Some (JObj starting_abc), Some (JObj running_abc)] fresh))) =
     JStr ''1.2.3.4:1234'' \<and>
   server_status (snd (snd (connect [Some (JObj starting_abc), Some (JObj running_abc)] fresh))) =
     RUNNING"
proof -
  have t: "map_of running_abc ''type'' = Some (JStr ''running'')"
    by (simp add: running_abc_def)
  have p: "fst (loop_body (Some (JObj running_abc)) fresh) = Inr Processed"
    by (simp add: loop_body_dict sequence_check_def dict_get_def process_def dispatch_def
          sample_defs)
  have g: "dict_get running_abc ''launchId'' = JStr ''abc''"
    "dict_get running_abc ''socket'' = JStr ''1.2.3.4:1234''"
    by (simp_all add: dict_get_def running_abc_def)
  have l: "last_handled_message_num fresh < 4" by (simp add: sample_defs)
  from running_event_sets_session [of running_abc fresh fresh] t p g l show ?thesis by simp
qed

subsection \<open>The sync flags around a request\<close>

lemma post_answered:
  "responses w = r # rs \<Longrightarrow>
   post rq w = (r, w\<lparr>posted := posted w @
                  [\<lparr>req = rq, mods_sync_then = mods_sync w, saves_sync_then = saves_sync w\<rparr>],
                 responses := rs\<rparr>)"
  by (simp add: post_def)



lemma write_chunks_posted [simp]:
  "posted (write_chunks file_path chunks w) = posted w"
  by (induction file_path chunks w rule: write_chunks.induct) (simp_all add: Let_def)

lemma write_chunks_saves_sync [simp]:
  "saves_sync (write_chunks file_path chunks w) = saves_sync w"
  by (induction file_path chunks w rule: write_chunks.induct) (simp_all add: Let_def)

text \<open>
  What \<^verbatim>\<open>download_save_slot\<close> does with the flag: the request leaves with \<^verbatim>\<open>saves_sync\<close> as
  the caller had it, a response other than 200 sets it to true, and after a response 200
  it is what it was.
\<close>

lemma download_save_slot_flag:
  "responses w = Some r # rs \<Longrightarrow>
   map saves_sync_then (posted (snd (download_save_slot sl file_path w))) =
     map saves_sync_then (posted w) @ [saves_sync w] \<and>
   (status_code r \<noteq> 200 \<longrightarrow>
      fst (download_save_slot sl file_path w) =
        Inl (Exception (''Error downloading save: '' @ resp_text r)) \<and>
      saves_sync (snd (download_save_slot sl file_path w))) \<and>
   (status_code r = 200 \<longrightarrow>
      saves_sync (snd (download_save_slot sl file_path w)) = saves_sync w)"
  by (simp add: download_save_slot_def post_answered)

text \<open>
  Claim C2 at a client whose \<^verbatim>\<open>saves_sync\<close> is true and a response with status 200:
  \<^verbatim>\<open>download_save_slot\<close> issues its request with \<^verbatim>\<open>saves_sync\<close> still true and returns
  with it true; the flag is never set to false. The sibling \<^verbatim>\<open>delete_save_slot\<close>, in the
  same state, issues its request with the flag false.
\<close>

theorem download_keeps_flag_set:
  "saves_sync (synced [Some (answer 200 ''PK'')]) \<and>
   fst (download_save_slot ''slot1'' ''slot1.zip'' (synced [Some (answer 200 ''PK'')])) = Inr () \<and>
   map saves_sync_then
     (posted (snd (download_save_slot ''slot1'' ''slot1.zip'' (synced [Some (answer 200 ''PK'')]))))
     = [True] \<and>
   saves_sync (snd (download_save_slot ''slot1'' ''slot1.zip'' (synced [Some (answer 200 ''PK'')]))) \<and>
   map saves_sync_then
     (posted (snd (delete_save_slot ''slot1'' (synced [Some (answer 200 ''PK'')]))))
     = [False]"
  by (simp add: download_save_slot_def delete_save_slot_def post_def synced_def world_of_def
        answer_def)

subsection \<open>The size guards\<close>

text \<open>
  Claim C7, as amended. For every mod whose declared size is above 268435456 bytes,
  \<^verbatim>\<open>upload_mod\<close> fails before any request is issued and leaves the world as it was: with
  the size-limit error when the file at its path can be opened, with the error of
  \<^verbatim>\<open>open\<close> when it cannot. The same holds for \<^verbatim>\<open>upload_save\<close> and 100663296 bytes.
\<close>

theorem size_guard_after_open:
  "(268435456 < size_bytes m \<longrightarrow>
      upload_mod m w =
        (case files w (filePath m) of
           None \<Rightarrow> Inl OSError
         | Some f \<Rightarrow> Inl (Exception ''Mod file must be under 256MB''), w)) \<and>
   (100663296 < size_bytes s \<longrightarrow>
      upload_save s w =
        (case files w (filePath s) of
           None \<Rightarrow> Inl OSError
         | Some f \<Rightarrow> Inl (Exception ''Save file must be under 96MB''), w))"
  by (simp add: upload_mod_def upload_save_def split: option.splits)

text \<open>C7 as amended at a mod of 300 MiB and a save of 100 MiB whose files exist.\<close>

theorem size_guard_after_open_witness:
  "268435456 < size_bytes big_mod \<and>
   upload_mod big_mod with_files = (Inl (Exception ''Mod file must be under 256MB''), with_files) \<and>
   posted (snd (upload_mod big_mod with_files)) = [] \<and>
   100663296 < size_bytes big_save \<and>
   upload_save big_save with_files = (Inl (Exception ''Save file must be under 96MB''), with_files) \<and>
   posted (snd (upload_save big_save with_files)) = []"
proof -
  have a: "268435456 < size_bytes big_mod" "100663296 < size_bytes big_save"
    by (simp_all add: big_mod_def big_save_def)
  have f: "files with_files (filePath big_mod) = Some ''PK''"
    "files with_files (filePath big_save) = Some ''PK''"
    "posted with_files = []"
    by (simp_all add: with_files_def world_of_def big_mod_def big_save_def)
  from size_guard_after_open [of big_mod with_files big_save] a f show ?thesis by simp
qed

text \<open>
  Claim C7 as stated fails where the file cannot be opened: the upload of a mod of 300 MiB
  (and of a save of 100 MiB) fails with the error of \<^verbatim>\<open>open\<close>, not with the size-limit
  error.
\<close>

theorem oversized_mod_unopened:
  "268435456 < size_bytes big_mod \<and>
   files fresh (filePath big_mod) = None \<and>
   fst (upload_mod big_mod fresh) = Inl OSError \<and>
   100663296 < size_bytes big_save \<and>
   files fresh (filePath big_save) = None \<and>
   fst (upload_save big_save fresh) = Inl OSError"
  by (simp add: upload_mod_def upload_save_def sample_defs)

text \<open>
  Claim C10. When \<^verbatim>\<open>upload_mod\<close> fails with its size-limit error, \<^verbatim>\<open>mods_sync\<close> is what it
  was before the call, and when \<^verbatim>\<open>upload_save\<close> fails with its size-limit error,
  \<^verbatim>\<open>saves_sync\<close> is what it was before the call; indeed nothing has changed.
\<close>

theorem size_guard_keeps_flags:
  "(fst (upload_mod m w) = Inl (Exception ''Mod file must be under 256MB'') \<longrightarrow>
      snd (upload_mod m w) = w \<and>
      mods_sync (snd (upload_mod m w)) = mods_sync w) \<and>
   (fst (upload_save s w) = Inl (Exception ''Save file must be under 96MB'') \<longrightarrow>
      snd (upload_save s w) = w \<and>
      saves_sync (snd (upload_save s w)) = saves_sync w)"
  by (auto simp: upload_mod_def upload_save_def split: option.splits prod.splits if_splits)

text \<open>C10 at a mod of 300 MiB and a save of 100 MiB whose files exist, both flags true before.\<close>

theorem size_guard_keeps_flags_witness:
  "fst (upload_mod big_mod (with_files\<lparr>mods_sync := True, saves_sync := True\<rparr>)) =
     Inl (Exception ''Mod file must be under 256MB'') \<and>
   mods_sync (snd (upload_mod big_mod (with_files\<lparr>mods_sync := True, saves_sync := True\<rparr>))) \<and>
   fst (upload_save big_save (with_files\<lparr>mods_sync := True, saves_sync := True\<rparr>)) =
     Inl (Exception ''Save file must be under 96MB'') \<and>
   saves_sync (snd (upload_save big_save (with_files\<lparr>mods_sync := True, saves_sync := True\<rparr>)))"
proof -
  let ?w = "with_files\<lparr>mods_sync := True, saves_sync := True\<rparr>"
  have a: "fst (upload_mod big_mod ?w) = Inl (Exception ''Mod file must be under 256MB'')"
    by (simp add: upload_mod_def with_files_def world_of_def big_mod_def)
  have b: "fst (upload_save big_save ?w) = Inl (Exception ''Save file must be under 96MB'')"
    by (simp add: upload_save_def with_files_def world_of_def big_save_def)
  from size_guard_keeps_flags [of big_mod ?w big_save] a b show ?thesis by simp
qed

end
